theory Spec2Isabelle
  imports Complex_Main
begin

section \<open>Sentin-L: the monitoring program of main.c\<close>

text \<open>
  The program simulates the temperature and vibration sensors of a motor, appends each
  reading to a CSV file, redraws a dashboard, extrapolates the time to failure from two
  consecutive readings and stops at the first critical reading.

  Conventions of the embedding.
  \<^item> The C type \<open>float\<close> is modelled by \<^typ>\<open>real\<close>: a finite \<open>float\<close> denotes a real
    number and the comparisons of the source are exact on those. Arithmetic is the exact
    arithmetic of the reals; the rounding of each result to the nearest representable
    value is not modelled. \<open>CRITICAL_TEMP * 0.8\<close> is \<open>80\<close> here as it is in IEEE double
    arithmetic.
  \<^item> \<open>int\<close> is modelled by \<^typ>\<open>int\<close>: the only counter, \<open>time_step\<close>, never exceeds 21
    (lemma \<open>main_loop_run\<close> below), far from overflow.
  \<^item> What the program prints is a list of output events, one per call of \<open>printf\<close>,
    \<open>fprintf\<close> or \<open>system\<close>: the format string with its arguments, not the rendered text.
  \<^item> The C library and the operating system are an environment: the values \<open>rand()\<close>
    returns, call by call, and whether each call of \<open>fopen\<close> succeeds.
  \<^item> \<open>srand\<close> only selects the sequence \<open>rand()\<close> returns, which is arbitrary here, and
    \<open>sleep\<close> only passes time: neither changes the state of the model.
\<close>

subsection \<open>Configuration\<close>

definition DATA_FILE :: string where
  "DATA_FILE = ''machine_logs.csv''"

definition CRITICAL_TEMP :: real where
  "CRITICAL_TEMP = 100.0"

definition CRITICAL_VIBRATION :: real where
  "CRITICAL_VIBRATION = 50.0"

subsection \<open>Data structures\<close>

text \<open>\<open>status\<close>: 0 = OK, 1 = WARNING, 2 = CRITICAL.\<close>

record SensorData =
  timestamp :: int
  temperature :: real
  vibration :: real
  status :: int

subsection \<open>Library and operating system\<close>

text \<open>An output event: a call of \<open>printf\<close>/\<open>fprintf\<close> with its format and arguments, or a
  call of \<open>system\<close> with its command.\<close>

datatype arg = I int | F real | S string

datatype out = Printf string "arg list" | System string

text \<open>
  The environment. \<open>RAND_MAX\<close> is the macro of \<open>stdlib.h\<close>, which is not part of the
  repository; the C standard makes it at least 32767. \<open>rand e k\<close> is the value the
  \<open>k\<close>-th call of \<open>rand()\<close> returns (calls counted from 0), a value between 0 and
  \<open>RAND_MAX\<close>; \<open>fopen_ok e k\<close> tells whether the \<open>k\<close>-th call of \<open>fopen\<close> returns a stream
  rather than \<open>NULL\<close>.
\<close>

record env =
  RAND_MAX :: nat
  rand :: "nat \<Rightarrow> nat"
  fopen_ok :: "nat \<Rightarrow> bool"

text \<open>The state the program changes: how many calls of \<open>rand\<close> and \<open>fopen\<close> it has made,
  the content of the file \<open>DATA_FILE\<close> and what it has written to the console.\<close>

record world =
  rand_calls :: nat
  fopen_calls :: nat
  data_file :: "out list"
  console :: "out list"

text \<open>
  \<open>Null_FILE\<close>: \<open>fprintf\<close> and \<open>fclose\<close> are called with a null stream (undefined
  behaviour in C). \<open>Division_by_zero\<close>: a quotient is evaluated with divisor 0.
\<close>

datatype error = Null_FILE | Division_by_zero

definition fdiv :: "real \<Rightarrow> real \<Rightarrow> error + real" where
  "fdiv x y = (if y = 0 then Inl Division_by_zero else Inr (x / y))"

subsection \<open>Module 1: hardware simulation\<close>

text \<open>Lines 50 to 56 of \<open>read_sensors\<close>: the status of a reading.\<close>

definition determine_status :: "real \<Rightarrow> real \<Rightarrow> int" where
  "determine_status temp vib =
     (if temp > CRITICAL_TEMP \<or> vib > CRITICAL_VIBRATION then 2
      else if temp > CRITICAL_TEMP * 0.8 then 1
      else 0)"

text \<open>\<open>r1\<close> and \<open>r2\<close> are the values of the two calls of \<open>rand()\<close>, in the order of the
  source.\<close>

definition read_sensors :: "nat \<Rightarrow> int \<Rightarrow> nat \<Rightarrow> nat \<Rightarrow> SensorData" where
  "read_sensors rand_max time_step r1 r2 =
     (let random_noise_temp = (real r1 / real rand_max) * 2.0;
          random_noise_vib = (real r2 / real rand_max) * 1.0;
          temp = 40.0 + (real_of_int time_step * 3.0) + random_noise_temp;
          vib = 10.0 + (real_of_int time_step * 1.5) + random_noise_vib
      in \<lparr>timestamp = time_step, temperature = temp, vibration = vib,
          status = determine_status temp vib\<rparr>)"

subsection \<open>Module 2: database management\<close>

definition msg_db_error :: out where
  "msg_db_error = Printf ''ERROR: Could not access database file!\<newline>'' []"

definition csv_row :: "SensorData \<Rightarrow> out" where
  "csv_row data =
     Printf ''%d,%.2f,%.2f,%d\<newline>''
       [I (timestamp data), F (temperature data), F (vibration data), I (status data)]"

definition log_to_database :: "env \<Rightarrow> SensorData \<Rightarrow> world \<Rightarrow> world" where
  "log_to_database e data w =
     (let w1 = w\<lparr>fopen_calls := fopen_calls w + 1\<rparr> in
      if \<not> fopen_ok e (fopen_calls w) then
        w1\<lparr>console := console w1 @ [msg_db_error]\<rparr>
      else
        w1\<lparr>data_file := data_file w1 @ [csv_row data]\<rparr>)"

subsection \<open>Module 3: prediction engine\<close>

definition msg_engine :: out where
  "msg_engine = Printf ''\<newline>   [ AI ANALYTICS ENGINE ]\<newline>'' []"

definition msg_stable :: out where
  "msg_stable = Printf ''   >> Status: Stable. No immediate risk detected.\<newline>'' []"

definition msg_trend :: "real \<Rightarrow> out" where
  "msg_trend temp_rate =
     Printf ''   >> Trend Detected: Temperature rising by %.2f C/sec\<newline>'' [F temp_rate]"

definition msg_alert :: "real \<Rightarrow> out" where
  "msg_alert steps =
     Printf ''   >> ALERT: PREDICTED FAILURE IN %.0f SECONDS!\<newline>'' [F steps]"

definition msg_action :: out where
  "msg_action = Printf ''   >> ACTION: RECOMMENDING EMERGENCY SHUTDOWN.\<newline>'' []"

definition msg_safe :: "real \<Rightarrow> out" where
  "msg_safe steps =
     Printf ''   >> PREDICTION: Safe operation for next %.0f seconds.\<newline>'' [F steps]"

text \<open>The result is what the call prints, or the error of a division by zero.\<close>

definition predict_failure :: "SensorData \<Rightarrow> SensorData \<Rightarrow> error + out list" where
  "predict_failure current previous =
     (let temp_rate = temperature current - temperature previous in
      if temp_rate \<le> 0 then Inr [msg_engine, msg_stable]
      else
        (let temp_diff = CRITICAL_TEMP - temperature current in
         case fdiv temp_diff temp_rate of
           Inl err \<Rightarrow> Inl err
         | Inr steps \<Rightarrow>
             (let steps_to_failure = (if steps < 0 then 0 else steps) in
              if steps_to_failure < 10 then
                Inr [msg_engine, msg_trend temp_rate, msg_alert steps_to_failure, msg_action]
              else
                Inr [msg_engine, msg_trend temp_rate, msg_safe steps_to_failure])))"

subsection \<open>Module 4: user interface\<close>

definition rule_double :: out where
  "rule_double = Printf ''====================================================\<newline>'' []"

definition rule_single :: out where
  "rule_single = Printf ''----------------------------------------------------\<newline>'' []"

definition print_dashboard :: "SensorData \<Rightarrow> out list" where
  "print_dashboard data =
     [System ''clear'',
      rule_double,
      Printf ''  SENTIN-L | INDUSTRIAL MONITORING SYSTEM (IoT)\<newline>'' [],
      rule_double,
      Printf ''  SENSOR READINGS:\<newline>'' [],
      Printf ''  [+] Temperature : %.2f C  '' [F (temperature data)],
      (if temperature data < 60 then Printf ''[====      ]\<newline>'' []
       else if temperature data < 90 then Printf ''[========  ]\<newline>'' []
       else Printf ''[==========] !!!\<newline>'' []),
      Printf ''  [+] Vibration   : %.2f Hz \<newline>'' [F (vibration data)],
      rule_single,
      Printf ''  SYSTEM STATUS   : '' []]
     @ (if status data = 0 then [Printf ''NORMAL [ OK ]\<newline>'' []] else [])
     @ (if status data = 1 then [Printf ''WARNING [ ! ]\<newline>'' []] else [])
     @ (if status data = 2 then [Printf ''CRITICAL [ X ]\<newline>'' []] else [])
     @ [rule_double]"

subsection \<open>The main program\<close>

definition msg_halt :: "out list" where
  "msg_halt =
     [Printf ''\<newline>*** CRITICAL FAILURE DETECTED ***\<newline>'' [],
      Printf ''*** SYSTEM HALTED TO PREVENT EXPLOSION ***\<newline>'' []]"

text \<open>
  One pass through the body of \<open>while (1)\<close>, lines 148 to 174. The result is an error, or
  whether the pass left the loop by \<open>break\<close>, with \<open>time_step\<close>, \<open>current_data\<close> and the
  state after the pass.
\<close>

definition loop_body ::
  "env \<Rightarrow> int \<Rightarrow> SensorData \<Rightarrow> world \<Rightarrow> error + (bool \<times> int \<times> SensorData \<times> world)" where
  "loop_body e time_step prev_data w =
     (let time_step1 = time_step + 1;
          current_data =
            read_sensors (RAND_MAX e) time_step1
              (rand e (rand_calls w)) (rand e (rand_calls w + 1));
          w1 = w\<lparr>rand_calls := rand_calls w + 2\<rparr>;
          w2 = log_to_database e current_data w1;
          w3 = w2\<lparr>console := console w2 @ print_dashboard current_data\<rparr>
      in case (if time_step1 > 1 then predict_failure current_data prev_data else Inr []) of
           Inl err \<Rightarrow> Inl err
         | Inr printed \<Rightarrow>
             (let w4 = w3\<lparr>console := console w3 @ printed\<rparr> in
              if status current_data = 2 then
                Inr (True, time_step1, current_data, w4\<lparr>console := console w4 @ msg_halt\<rparr>)
              else Inr (False, time_step1, current_data, w4)))"

text \<open>A reading is critical from tick 21 on, whatever \<open>rand()\<close> returns: the measure of
  the loop.\<close>

lemma read_sensors_critical:
  "21 \<le> time_step \<Longrightarrow> status (read_sensors rand_max time_step r1 r2) = 2"
proof -
  assume a: "21 \<le> time_step"
  have n: "0 \<le> real r1 / real rand_max * 2" by simp
  from a have "(21::real) \<le> real_of_int time_step" by linarith
  with n have "100 < 40 + real_of_int time_step * 3 + real r1 / real rand_max * 2"
    by linarith
  then show ?thesis
    by (simp add: read_sensors_def determine_status_def CRITICAL_TEMP_def Let_def)
qed

lemma loop_body_continue:
  assumes "loop_body e time_step prev_data w = Inr (False, time_step', current_data, w')"
  shows "time_step' = time_step + 1 \<and> time_step' \<le> 20"
proof -
  let ?c = "read_sensors (RAND_MAX e) (time_step + 1)
              (rand e (rand_calls w)) (rand e (rand_calls w + 1))"
  from assms have t: "time_step' = time_step + 1" and s: "status ?c \<noteq> 2"
    by (auto simp: loop_body_def Let_def split: if_splits sum.splits)
  from s read_sensors_critical [of "time_step + 1"] have "\<not> 21 \<le> time_step + 1"
    by blast
  with t show ?thesis by simp
qed

text \<open>The loop of \<open>main\<close>: the result is \<open>time_step\<close>, \<open>current_data\<close> and the state at the
  \<open>break\<close>. On the path that continues, \<open>prev_data = current_data\<close> and \<open>sleep(1)\<close>.\<close>

function main_loop ::
  "env \<Rightarrow> int \<Rightarrow> SensorData \<Rightarrow> world \<Rightarrow> error + (int \<times> SensorData \<times> world)" where
  "main_loop e time_step prev_data w =
     (case loop_body e time_step prev_data w of
        Inl err \<Rightarrow> Inl err
      | Inr (stop, time_step1, current_data, w1) \<Rightarrow>
          if stop then Inr (time_step1, current_data, w1)
          else main_loop e time_step1 current_data w1)"
  by pat_completeness auto
termination
proof (relation "measure (\<lambda>(e, time_step, prev_data, w). nat (21 - time_step))")
  show "wf (measure (\<lambda>(e, time_step, prev_data, w). nat (21 - time_step)))"
    by simp
next
  fix e :: env and time_step :: int and prev_data :: SensorData and w :: world
    and x2 :: "bool \<times> int \<times> SensorData \<times> world" and x1 :: bool
    and x2a :: "int \<times> SensorData \<times> world" and x1a :: int
    and x2b :: "SensorData \<times> world" and x1b :: SensorData and x2c :: world
  assume "loop_body e time_step prev_data w = Inr x2" "(x1, x2a) = x2"
    "(x1a, x2b) = x2a" "(x1b, x2c) = x2b" "\<not> x1"
  then have "loop_body e time_step prev_data w = Inr (False, x1a, x1b, x2c)"
    by auto
  from loop_body_continue [OF this]
  show "((e, x1a, x1b, x2c), (e, time_step, prev_data, w))
          \<in> measure (\<lambda>(e, time_step, prev_data, w). nat (21 - time_step))"
    by simp
qed

declare main_loop.simps [simp del]

definition msg_header :: out where
  "msg_header = Printf ''Timestamp,Temperature,Vibration,Status\<newline>'' []"

definition msg_boot :: "out list" where
  "msg_boot =
     [Printf ''Booting Sentin-L System...\<newline>'' [],
      Printf ''Connecting to IoT Sensors...\<newline>'' []]"

definition msg_saved :: out where
  "msg_saved =
     Printf (''\<newline>Session Data saved to '' @ [CHR 0x27] @ ''%s'' @ [CHR 0x27] @ ''.\<newline>'')
       [S DATA_FILE]"

text \<open>
  \<open>main\<close>, given the environment and the content of \<open>DATA_FILE\<close> before the program
  starts. The result is an error, or the exit code with \<open>time_step\<close>, \<open>current_data\<close> and
  the state at the \<open>return\<close>. The first \<open>fopen\<close> is not checked: when it fails, \<open>fprintf\<close>
  and \<open>fclose\<close> receive \<open>NULL\<close>.
\<close>

definition main :: "env \<Rightarrow> out list \<Rightarrow> error + (int \<times> int \<times> SensorData \<times> world)" where
  "main e prior =
     (let w0 = \<lparr>rand_calls = 0, fopen_calls = 0, data_file = prior, console = []\<rparr> in
      if \<not> fopen_ok e (fopen_calls w0) then Inl Null_FILE
      else
        (let w1 = w0\<lparr>fopen_calls := fopen_calls w0 + 1, data_file := []\<rparr>;
             w2 = w1\<lparr>data_file := data_file w1 @ [msg_header]\<rparr>;
             w3 = w2\<lparr>console := console w2 @ msg_boot\<rparr>;
             prev_data = \<lparr>timestamp = 0, temperature = 0.0, vibration = 0.0, status = 0\<rparr>
         in case main_loop e 0 prev_data w3 of
              Inl err \<Rightarrow> Inl err
            | Inr (time_step, current_data, w4) \<Rightarrow>
                Inr (0, time_step, current_data,
                     w4\<lparr>console := console w4 @ [msg_saved]\<rparr>)))"

subsection \<open>The readings and the output of a run, tick by tick\<close>

text \<open>
  In a run of \<open>main\<close> the tick \<open>k\<close> (from 1) makes the calls \<open>2 * (k - 1)\<close> and
  \<open>2 * (k - 1) + 1\<close> of \<open>rand()\<close> and the call \<open>k\<close> of \<open>fopen\<close>; call 0 of \<open>fopen\<close> is
  the one that writes the header.
\<close>

definition reading :: "env \<Rightarrow> nat \<Rightarrow> SensorData" where
  "reading e k =
     read_sensors (RAND_MAX e) (int k) (rand e (2 * (k - 1))) (rand e (2 * (k - 1) + 1))"

definition predicted :: "SensorData \<Rightarrow> SensorData \<Rightarrow> out list" where
  "predicted current previous =
     (case predict_failure current previous of Inl err \<Rightarrow> [] | Inr printed \<Rightarrow> printed)"

definition tick_console :: "env \<Rightarrow> nat \<Rightarrow> out list" where
  "tick_console e k =
     (if fopen_ok e k then [] else [msg_db_error])
     @ print_dashboard (reading e k)
     @ (if 1 < k then predicted (reading e k) (reading e (k - 1)) else [])
     @ (if status (reading e k) = 2 then msg_halt else [])"

subsection \<open>Runs to evaluate the program on\<close>

text \<open>
  Two environments in which \<open>rand()\<close> always returns 0, so that the readings carry no
  noise: in the first every \<open>fopen\<close> succeeds, in the second the one of tick 1 fails.
  \<open>world_tick1\<close> is the state of \<open>main\<close> when it enters the loop and \<open>data_zero\<close> its
  initial \<open>prev_data\<close>.
\<close>

definition env_all_open :: env where
  "env_all_open = \<lparr>RAND_MAX = 32767, rand = (\<lambda>k. 0), fopen_ok = (\<lambda>k. True)\<rparr>"

definition env_tick1_closed :: env where
  "env_tick1_closed = \<lparr>RAND_MAX = 32767, rand = (\<lambda>k. 0), fopen_ok = (\<lambda>k. k \<noteq> 1)\<rparr>"



text \<open>What a run leaves behind: the final value of \<open>time_step\<close>, which counts the passes
  through the loop, and the lines of the file after the first.\<close>

definition run_ticks :: "env \<Rightarrow> out list \<Rightarrow> int" where
  "run_ticks e prior =
     (case main e prior of Inl err \<Rightarrow> 0 | Inr (rc, time_step, current_data, w) \<Rightarrow> time_step)"

definition run_rows :: "env \<Rightarrow> out list \<Rightarrow> out list" where
  "run_rows e prior =
     (case main e prior of Inl err \<Rightarrow> [] | Inr (rc, time_step, current_data, w) \<Rightarrow> tl (data_file w))"

section \<open>Properties\<close>

subsection \<open>The classifier\<close>

text \<open>
  Claim C1. The status is a function of temperature and vibration alone: 2 (CRITICAL)
  exactly when the temperature is above 100.0 or the vibration above 50.0, otherwise 1
  (WARNING) exactly when the temperature is above 80.0, otherwise 0 (OK). The comparisons
  are strict: a value at a threshold falls in the lower tier.
\<close>

theorem C1_classifier:
  "(determine_status temp vib = 2) = (temp > 100.0 \<or> vib > 50.0)
   \<and> (determine_status temp vib = 1) = (\<not> (temp > 100.0 \<or> vib > 50.0) \<and> temp > 80.0)
   \<and> (determine_status temp vib = 0) = (\<not> (temp > 100.0 \<or> vib > 50.0) \<and> \<not> temp > 80.0)
   \<and> status (read_sensors rand_max time_step r1 r2) =
       determine_status (temperature (read_sensors rand_max time_step r1 r2))
         (vibration (read_sensors rand_max time_step r1 r2))
   \<and> determine_status 100.1 10.0 = 2
   \<and> determine_status 100.0 10.0 = 1
   \<and> determine_status 100.0 50.0 = 1
   \<and> determine_status 85.0 10.0 = 1
   \<and> determine_status 80.0 50.0 = 0
   \<and> determine_status 50.0 10.0 = 0"
  by (simp add: determine_status_def read_sensors_def CRITICAL_TEMP_def
      CRITICAL_VIBRATION_def Let_def)

subsection \<open>The predictor\<close>

lemma predict_failure_closed:
  "predict_failure current previous =
     (let rate = temperature current - temperature previous;
          projected_steps = max 0 ((100.0 - temperature current) / rate)
      in if rate \<le> 0 then Inr [msg_engine, msg_stable]
         else if projected_steps < 10 then
           Inr [msg_engine, msg_trend rate, msg_alert projected_steps, msg_action]
         else Inr [msg_engine, msg_trend rate, msg_safe projected_steps])"
  by (simp add: predict_failure_def fdiv_def CRITICAL_TEMP_def Let_def max_def not_less)

lemma predict_failure_predicted:
  "predict_failure current previous = Inr (predicted current previous)"
  by (simp add: predicted_def predict_failure_closed Let_def)


text \<open>
  Claim C8. The division of the predictor never has divisor 0: a division by zero is an
  error of the model (\<open>fdiv\<close>), and the predictor returns what it prints, never that error,
  for every pair of readings; it returns the stable message, before the division,
  exactly when the rate is \<open>\<le> 0\<close>.
\<close>

theorem C8_no_division_by_zero:
  "(\<exists>printed. predict_failure current previous = Inr printed)
   \<and> predict_failure current previous \<noteq> Inl Division_by_zero
   \<and> fdiv x 0 = Inl Division_by_zero
   \<and> (predict_failure current previous = Inr [msg_engine, msg_stable]) =
       (temperature current - temperature previous \<le> 0)"
  by (simp add: predict_failure_closed fdiv_def Let_def)

subsection \<open>The sensor simulator\<close>



subsection \<open>The driver loop\<close>

text \<open>One pass of the loop in closed form: it never fails, it leaves the loop exactly when
  the reading is critical, and its effects are those listed.\<close>

lemma loop_body_closed:
  "loop_body e time_step prev_data w =
     (let cur = read_sensors (RAND_MAX e) (time_step + 1)
                  (rand e (rand_calls w)) (rand e (rand_calls w + 1))
      in Inr (status cur = 2, time_step + 1, cur,
           w\<lparr>rand_calls := rand_calls w + 2,
             fopen_calls := fopen_calls w + 1,
             data_file := data_file w @ (if fopen_ok e (fopen_calls w) then [csv_row cur] else []),
             console := console w
               @ (if fopen_ok e (fopen_calls w) then [] else [msg_db_error])
               @ print_dashboard cur
               @ (if 1 < time_step + 1 then predicted cur prev_data else [])
               @ (if status cur = 2 then msg_halt else [])\<rparr>))"
  by (simp add: loop_body_def log_to_database_def predict_failure_predicted Let_def)

lemma main_loop_run:
  assumes "rand_calls w = 2 * n" and "fopen_calls w = Suc n"
    and "0 < n \<longrightarrow> prev = reading e n"
  shows "\<exists>N w'. main_loop e (int n) prev w = Inr (int N, reading e N, w')
           \<and> n < N \<and> (N \<le> 21 \<or> N = Suc n)
           \<and> status (reading e N) = 2
           \<and> (\<forall>k. n < k \<and> k < N \<longrightarrow> status (reading e k) \<noteq> 2)
           \<and> data_file w' =
               data_file w @ map (\<lambda>k. csv_row (reading e k)) (filter (fopen_ok e) [Suc n..<Suc N])
           \<and> console w' = console w @ concat (map (tick_console e) [Suc n..<Suc N])"
  using assms
proof (induction "21 - n" arbitrary: n prev w rule: less_induct)
  case less
  let ?cur = "reading e (Suc n)"
  define w1 where "w1 =
     w\<lparr>rand_calls := rand_calls w + 2,
       fopen_calls := fopen_calls w + 1,
       data_file := data_file w @ (if fopen_ok e (fopen_calls w) then [csv_row ?cur] else []),
       console := console w
         @ (if fopen_ok e (fopen_calls w) then [] else [msg_db_error])
         @ print_dashboard ?cur
         @ (if 1 < int n + 1 then predicted ?cur prev else [])
         @ (if status ?cur = 2 then msg_halt else [])\<rparr>"
  have cur_eq: "read_sensors (RAND_MAX e) (int n + 1)
                  (rand e (rand_calls w)) (rand e (rand_calls w + 1)) = ?cur"
    by (simp add: reading_def less.prems(1) add.commute)
  have body: "loop_body e (int n) prev w = Inr (status ?cur = 2, int n + 1, ?cur, w1)"
    unfolding loop_body_closed Let_def cur_eq w1_def ..
  have rw1: "rand_calls w1 = 2 * Suc n" and fw1: "fopen_calls w1 = Suc (Suc n)"
    by (simp_all add: w1_def less.prems(1,2))
  have dw1: "data_file w1 =
      data_file w @ map (\<lambda>k. csv_row (reading e k)) (filter (fopen_ok e) [Suc n..<Suc (Suc n)])"
    by (simp add: w1_def less.prems(2))
  have cw1: "console w1 = console w @ tick_console e (Suc n)"
    using less.prems(3) by (simp add: w1_def tick_console_def less.prems(2))
  show ?case
  proof (cases "status ?cur = 2")
    case True
    have "main_loop e (int n) prev w = Inr (int (Suc n), ?cur, w1)"
      by (subst main_loop.simps) (simp add: body True add.commute)
    have m: "main_loop e (int n) prev w = Inr (int (Suc n), ?cur, w1)" by fact
    have "main_loop e (int n) prev w = Inr (int (Suc n), reading e (Suc n), w1)
           \<and> n < Suc n \<and> (Suc n \<le> 21 \<or> Suc n = Suc n)
           \<and> status (reading e (Suc n)) = 2
           \<and> (\<forall>k. n < k \<and> k < Suc n \<longrightarrow> status (reading e k) \<noteq> 2)
           \<and> data_file w1 =
               data_file w @ map (\<lambda>k. csv_row (reading e k)) (filter (fopen_ok e) [Suc n..<Suc (Suc n)])
           \<and> console w1 = console w @ concat (map (tick_console e) [Suc n..<Suc (Suc n)])"
      using m True dw1 cw1 by simp
    then show ?thesis by blast
  next
    case False
    have le: "Suc n \<le> 20"
    proof (rule ccontr)
      assume "\<not> Suc n \<le> 20"
      then have "21 \<le> int (Suc n)" by simp
      from read_sensors_critical [OF this] have "status ?cur = 2"
        by (simp add: reading_def)
      with False show False by simp
    qed
    have step: "main_loop e (int n) prev w = main_loop e (int (Suc n)) ?cur w1"
      by (subst main_loop.simps) (simp add: body False add.commute)
    have ms: "21 - Suc n < 21 - n" using le by simp
    have p3: "0 < Suc n \<longrightarrow> ?cur = reading e (Suc n)" by simp
    from less.hyps [OF ms rw1 fw1 p3]
    obtain N w' where r: "main_loop e (int (Suc n)) ?cur w1 = Inr (int N, reading e N, w')"
      and n: "Suc n < N" and b: "N \<le> 21 \<or> N = Suc (Suc n)"
      and s: "status (reading e N) = 2"
      and f: "\<forall>k. Suc n < k \<and> k < N \<longrightarrow> status (reading e k) \<noteq> 2"
      and d: "data_file w' = data_file w1
                @ map (\<lambda>k. csv_row (reading e k)) (filter (fopen_ok e) [Suc (Suc n)..<Suc N])"
      and c: "console w' = console w1 @ concat (map (tick_console e) [Suc (Suc n)..<Suc N])"
      by blast
    have u: "[Suc n..<Suc N] = Suc n # [Suc (Suc n)..<Suc N]"
      using n by (simp add: upt_conv_Cons)
    have f': "\<forall>k. n < k \<and> k < N \<longrightarrow> status (reading e k) \<noteq> 2"
    proof (intro allI impI)
      fix k assume "n < k \<and> k < N"
      then have "k = Suc n \<or> (Suc n < k \<and> k < N)" by auto
      with f False show "status (reading e k) \<noteq> 2" by auto
    qed
    have b': "N \<le> 21 \<or> N = Suc n" using b le by auto
    have d': "data_file w' = data_file w
                @ map (\<lambda>k. csv_row (reading e k)) (filter (fopen_ok e) [Suc n..<Suc N])"
      unfolding d dw1 u by simp
    have c': "console w' = console w @ concat (map (tick_console e) [Suc n..<Suc N])"
      unfolding c cw1 u by simp
    from n have n': "n < N" by simp
    from step r have "main_loop e (int n) prev w = Inr (int N, reading e N, w')" by simp
    with n' b' s f' d' c' show ?thesis by blast
  qed
qed

lemma main_run:
  assumes "fopen_ok e 0"
  shows "\<exists>N w. main e prior = Inr (0, int N, reading e N, w)
           \<and> 1 \<le> N \<and> N \<le> 21
           \<and> status (reading e N) = 2
           \<and> (\<forall>k. 1 \<le> k \<and> k < N \<longrightarrow> status (reading e k) \<noteq> 2)
           \<and> data_file w =
               msg_header # map (\<lambda>k. csv_row (reading e k)) (filter (fopen_ok e) [1..<Suc N])
           \<and> console w = msg_boot @ concat (map (tick_console e) [1..<Suc N]) @ [msg_saved]"
proof -
  let ?w3 = "\<lparr>rand_calls = 0, fopen_calls = 1, data_file = [msg_header], console = msg_boot\<rparr>"
  let ?p = "\<lparr>timestamp = 0, temperature = 0, vibration = 0, status = 0\<rparr>"
  have p1: "rand_calls ?w3 = 2 * 0" and p2: "fopen_calls ?w3 = Suc 0"
    and p3: "0 < (0::nat) \<longrightarrow> ?p = reading e 0" by simp_all
  from main_loop_run [OF p1 p2 p3]
  obtain N w' where r: "main_loop e (int 0) ?p ?w3 = Inr (int N, reading e N, w')"
    and n: "0 < N" and b: "N \<le> 21 \<or> N = Suc 0"
    and s: "status (reading e N) = 2"
    and f: "\<forall>k. 0 < k \<and> k < N \<longrightarrow> status (reading e k) \<noteq> 2"
    and d: "data_file w' = data_file ?w3
              @ map (\<lambda>k. csv_row (reading e k)) (filter (fopen_ok e) [Suc 0..<Suc N])"
    and c: "console w' = console ?w3 @ concat (map (tick_console e) [Suc 0..<Suc N])"
    by blast
  have m: "main e prior = Inr (0, int N, reading e N, w'\<lparr>console := console w' @ [msg_saved]\<rparr>)"
    using assms r by (simp add: main_def Let_def)
  from n b have "1 \<le> N \<and> N \<le> 21" by auto
  moreover from f have "\<forall>k. 1 \<le> k \<and> k < N \<longrightarrow> status (reading e k) \<noteq> 2" by simp
  moreover from d have "data_file (w'\<lparr>console := console w' @ [msg_saved]\<rparr>) =
      msg_header # map (\<lambda>k. csv_row (reading e k)) (filter (fopen_ok e) [1..<Suc N])" by simp
  moreover from c have "console (w'\<lparr>console := console w' @ [msg_saved]\<rparr>) =
      msg_boot @ concat (map (tick_console e) [1..<Suc N]) @ [msg_saved]" by simp
  ultimately show ?thesis using m s by blast
qed


text \<open>From any state the loop ends, at a critical reading, with \<open>time_step\<close> at most 21
  when it started below 21.\<close>

lemma main_loop_halts:
  "\<exists>ts cur w'. main_loop e t prev w = Inr (ts, cur, w')
      \<and> status cur = 2 \<and> t < ts \<and> (ts \<le> 21 \<or> ts = t + 1)"
proof (induction "nat (21 - t)" arbitrary: t prev w rule: less_induct)
  case less
  let ?cur = "read_sensors (RAND_MAX e) (t + 1) (rand e (rand_calls w)) (rand e (rand_calls w + 1))"
  obtain w1 where body: "loop_body e t prev w = Inr (status ?cur = 2, t + 1, ?cur, w1)"
    unfolding loop_body_closed Let_def by blast
  show ?case
  proof (cases "status ?cur = 2")
    case True
    have "main_loop e t prev w = Inr (t + 1, ?cur, w1)"
      using True by (subst main_loop.simps) (simp add: body)
    with True show ?thesis by simp
  next
    case False
    from False read_sensors_critical [of "t + 1"] have le: "t + 1 \<le> 20" by fastforce
    have step: "main_loop e t prev w = main_loop e (t + 1) ?cur w1"
      using False by (subst main_loop.simps) (simp add: body)
    have "nat (21 - (t + 1)) < nat (21 - t)" using le by simp
    from less.hyps [OF this, of ?cur w1]
    obtain ts cur w' where "main_loop e (t + 1) ?cur w1 = Inr (ts, cur, w')"
      and "status cur = 2" and "t + 1 < ts" and "ts \<le> 21 \<or> ts = t + 1 + 1"
      by blast
    with step le have "main_loop e t prev w = Inr (ts, cur, w')
      \<and> status cur = 2 \<and> t < ts \<and> (ts \<le> 21 \<or> ts = t + 1)" by auto
    then show ?thesis by blast
  qed
qed



lemma engine_not_in_dashboard: "msg_engine \<notin> set (print_dashboard d)"
  by (simp add: print_dashboard_def msg_engine_def rule_double_def rule_single_def)

lemma engine_in_predicted: "msg_engine \<in> set (predicted c p)"
  by (simp add: predicted_def predict_failure_closed Let_def)

lemma engine_in_tick_console: "(msg_engine \<in> set (tick_console e k)) = (1 < k)"
  by (simp add: tick_console_def engine_not_in_dashboard engine_in_predicted)
    (simp add: msg_engine_def msg_db_error_def msg_halt_def)

text \<open>Without noise the first critical reading is that of tick 21.\<close>

lemma quiet_not_critical:
  assumes "rand e = (\<lambda>k. 0)" and "k \<le> 20"
  shows "status (reading e k) \<noteq> 2"
proof -
  from assms(2) have "real k \<le> 20" by simp
  then have "40 + real k * 3 \<le> 100 \<and> 10 + real k * (3 / 2) \<le> 50" by simp
  then show ?thesis
    by (simp add: reading_def read_sensors_def determine_status_def CRITICAL_TEMP_def
        CRITICAL_VIBRATION_def assms(1) Let_def)
qed

lemma quiet_run:
  assumes "rand e = (\<lambda>k. 0)" and "fopen_ok e 0"
  shows "\<exists>w. main e prior = Inr (0, 21, reading e 21, w)
           \<and> data_file w =
               msg_header # map (\<lambda>k. csv_row (reading e k)) (filter (fopen_ok e) [1..<22])"
proof -
  from main_run [OF assms(2), of prior]
  obtain N w where m: "main e prior = Inr (0, int N, reading e N, w)"
    and b: "N \<le> 21" and s: "status (reading e N) = 2"
    and d: "data_file w =
               msg_header # map (\<lambda>k. csv_row (reading e k)) (filter (fopen_ok e) [1..<Suc N])"
    by blast
  from s quiet_not_critical [OF assms(1), of N] have "\<not> N \<le> 20" by blast
  with b have "N = 21" by simp
  with m d show ?thesis by simp
qed

lemma filter_upt_short:
  assumes "1 \<le> k" and "k \<le> N" and "\<not> P k"
  shows "length (filter P [1..<Suc N]) < N"
proof -
  from assms(1,2) have "k \<in> set [1..<Suc N]" by (simp del: upt_Suc)
  with assms(3) have "length (filter P [1..<Suc N]) < length [1..<Suc N]"
    by (rule length_filter_less [of k "[1..<Suc N]" P, rotated])
  then show ?thesis by (simp del: upt_Suc)
qed

lemma upt_1_22: "[1..<22] = [1,2,3,4,5,6,7,8,9,10,11,12,13,14,15,16,17,18,19,20,21::nat]"
  by (simp add: upt_rec)

subsection \<open>A failing open of the log file\<close>



subsection \<open>When the predictor runs\<close>

text \<open>
  Claim C7. The console of a run is the boot messages, the output of the ticks 1 to N in
  order, and the closing message. The output of a tick holds the predictor's banner
  exactly when the tick's number is above 1: tick 1 prints no prediction, and a later
  tick \<open>k\<close> prints what \<open>predict_failure\<close> prints for the reading of \<open>k\<close> and the reading
  of \<open>k - 1\<close>. In any pass of the loop the prediction is made from \<open>current_data\<close> and
  \<open>prev_data\<close>, exactly when \<open>time_step > 1\<close>.
\<close>

theorem C7_predictor_invocation:
  assumes "fopen_ok e 0"
  shows "(\<exists>N w. main e prior = Inr (0, int N, reading e N, w)
            \<and> console w = msg_boot @ concat (map (tick_console e) [1..<Suc N]) @ [msg_saved])
         \<and> (\<forall>k. (msg_engine \<in> set (tick_console e k)) = (1 < k))
         \<and> tick_console e 1 =
             (if fopen_ok e 1 then [] else [msg_db_error])
             @ print_dashboard (reading e 1)
             @ (if status (reading e 1) = 2 then msg_halt else [])
         \<and> (\<forall>k. tick_console e (Suc (Suc k)) =
                  (if fopen_ok e (Suc (Suc k)) then [] else [msg_db_error])
                  @ print_dashboard (reading e (Suc (Suc k)))
                  @ predicted (reading e (Suc (Suc k))) (reading e (Suc k))
                  @ (if status (reading e (Suc (Suc k))) = 2 then msg_halt else []))
         \<and> (\<forall>current previous.
                predict_failure current previous = Inr (predicted current previous))
         \<and> (\<forall>t prev w0. \<exists>cur w'.
                loop_body e t prev w0 = Inr (status cur = 2, t + 1, cur, w')
              \<and> console w' = console w0
                  @ (if fopen_ok e (fopen_calls w0) then [] else [msg_db_error])
                  @ print_dashboard cur
                  @ (if 1 < t + 1 then predicted cur prev else [])
                  @ (if status cur = 2 then msg_halt else []))"
proof -
  from main_run [OF assms, of prior]
  have 1: "\<exists>N w. main e prior = Inr (0, int N, reading e N, w)
            \<and> console w = msg_boot @ concat (map (tick_console e) [1..<Suc N]) @ [msg_saved]"
    by blast
  have 2: "\<forall>k. (msg_engine \<in> set (tick_console e k)) = (1 < k)"
    by (simp add: engine_in_tick_console)
  have 3: "tick_console e 1 =
             (if fopen_ok e 1 then [] else [msg_db_error])
             @ print_dashboard (reading e 1)
             @ (if status (reading e 1) = 2 then msg_halt else [])"
    by (simp add: tick_console_def)
  have 4: "\<forall>k. tick_console e (Suc (Suc k)) =
                  (if fopen_ok e (Suc (Suc k)) then [] else [msg_db_error])
                  @ print_dashboard (reading e (Suc (Suc k)))
                  @ predicted (reading e (Suc (Suc k))) (reading e (Suc k))
                  @ (if status (reading e (Suc (Suc k))) = 2 then msg_halt else [])"
    by (simp add: tick_console_def)
  have 5: "\<forall>current previous.
                predict_failure current previous = Inr (predicted current previous)"
    by (simp add: predict_failure_predicted)
  have 6: "\<forall>t prev w0. \<exists>cur w'.
                loop_body e t prev w0 = Inr (status cur = 2, t + 1, cur, w')
              \<and> console w' = console w0
                  @ (if fopen_ok e (fopen_calls w0) then [] else [msg_db_error])
                  @ print_dashboard cur
                  @ (if 1 < t + 1 then predicted cur prev else [])
                  @ (if status cur = 2 then msg_halt else [])"
    by (simp add: loop_body_closed Let_def)
  from 1 2 3 4 5 6 show ?thesis by blast
qed

theorem C7_predictor_invocation_witness:
  "(\<exists>w. main env_all_open [] = Inr (0, 21, reading env_all_open 21, w)
        \<and> console w = msg_boot @ concat (map (tick_console env_all_open) [1..<22]) @ [msg_saved])
   \<and> msg_engine \<notin> set (tick_console env_all_open 1)
   \<and> msg_engine \<in> set (tick_console env_all_open 2)"
proof -
  have o: "fopen_ok env_all_open 0" and r: "rand env_all_open = (\<lambda>k. 0)"
    by (simp_all add: env_all_open_def)
  from C7_predictor_invocation [OF o, of "[]"]
  have e: "\<forall>k. (msg_engine \<in> set (tick_console env_all_open k)) = (1 < k)"
    and "\<exists>N w. main env_all_open [] = Inr (0, int N, reading env_all_open N, w)
            \<and> console w = msg_boot @ concat (map (tick_console env_all_open) [1..<Suc N]) @ [msg_saved]"
    by blast+
  then obtain N w where m: "main env_all_open [] = Inr (0, int N, reading env_all_open N, w)"
    and c: "console w = msg_boot @ concat (map (tick_console env_all_open) [1..<Suc N]) @ [msg_saved]"
    by blast
  from quiet_run [OF r o, of "[]"] m have "N = 21" by auto
  with m c have "\<exists>w. main env_all_open [] = Inr (0, 21, reading env_all_open 21, w)
        \<and> console w = msg_boot @ concat (map (tick_console env_all_open) [1..<22]) @ [msg_saved]"
    by auto
  with e show ?thesis by simp
qed

subsection \<open>Halting and the log file\<close>

text \<open>
  Claim C3, with the count of rows stated as the code has it. A run that enters the loop
  stops at the first tick N whose reading is critical: no earlier reading is critical
  and the reading of N is. The rows of the file are the readings of the ticks 1 to N
  whose open for appending succeeded, in order; the reading of the halting tick is the
  last row when its open succeeded; the number of rows is N when every open of the ticks
  succeeded, and less than N when one of them failed.
\<close>

theorem C3_halting:
  assumes "fopen_ok e 0"
  shows "\<exists>N w. main e prior = Inr (0, int N, reading e N, w)
           \<and> 1 \<le> N
           \<and> status (reading e N) = 2
           \<and> (\<forall>k. 1 \<le> k \<and> k < N \<longrightarrow> status (reading e k) \<noteq> 2)
           \<and> tl (data_file w) =
               map (\<lambda>k. csv_row (reading e k)) (filter (fopen_ok e) [1..<Suc N])
           \<and> (fopen_ok e N \<longrightarrow> last (data_file w) = csv_row (reading e N))
           \<and> length (tl (data_file w)) = length (filter (fopen_ok e) [1..<Suc N])
           \<and> ((\<forall>k. 1 \<le> k \<and> k \<le> N \<longrightarrow> fopen_ok e k) \<longrightarrow> length (tl (data_file w)) = N)
           \<and> ((\<exists>k. 1 \<le> k \<and> k \<le> N \<and> \<not> fopen_ok e k) \<longrightarrow> length (tl (data_file w)) < N)"
proof -
  from main_run [OF assms, of prior]
  obtain N w where m: "main e prior = Inr (0, int N, reading e N, w)"
    and n: "1 \<le> N" and s: "status (reading e N) = 2"
    and f: "\<forall>k. 1 \<le> k \<and> k < N \<longrightarrow> status (reading e k) \<noteq> 2"
    and d: "data_file w =
               msg_header # map (\<lambda>k. csv_row (reading e k)) (filter (fopen_ok e) [1..<Suc N])"
    by blast
  from d have t: "tl (data_file w) =
      map (\<lambda>k. csv_row (reading e k)) (filter (fopen_ok e) [1..<Suc N])" by simp
  have l: "fopen_ok e N \<longrightarrow> last (data_file w) = csv_row (reading e N)"
    using n d by simp
  from t have c: "length (tl (data_file w)) = length (filter (fopen_ok e) [1..<Suc N])"
    by simp
  have a: "(\<forall>k. 1 \<le> k \<and> k \<le> N \<longrightarrow> fopen_ok e k) \<longrightarrow> length (tl (data_file w)) = N"
  proof
    assume "\<forall>k. 1 \<le> k \<and> k \<le> N \<longrightarrow> fopen_ok e k"
    then have "filter (fopen_ok e) [1..<Suc N] = [1..<Suc N]"
      by (intro filter_True) auto
    with c show "length (tl (data_file w)) = N" by simp
  qed
  have b: "(\<exists>k. 1 \<le> k \<and> k \<le> N \<and> \<not> fopen_ok e k) \<longrightarrow> length (tl (data_file w)) < N"
    using c filter_upt_short [of _ N "fopen_ok e"] by auto
  from m n s f t l c a b show ?thesis by blast
qed

theorem C3_halting_witness:
  "\<exists>w. main env_all_open [] = Inr (0, 21, reading env_all_open 21, w)
        \<and> status (reading env_all_open 21) = 2
        \<and> length (tl (data_file w)) = 21"
proof -
  have o: "fopen_ok env_all_open 0" and r: "rand env_all_open = (\<lambda>k. 0)"
    and a: "\<And>N. \<forall>k. 1 \<le> k \<and> k \<le> N \<longrightarrow> fopen_ok env_all_open k"
    by (simp_all add: env_all_open_def)
  from C3_halting [OF o, of "[]"] a
  obtain N w where m: "main env_all_open [] = Inr (0, int N, reading env_all_open N, w)"
    and s: "status (reading env_all_open N) = 2"
    and l: "length (tl (data_file w)) = N"
    by blast
  from quiet_run [OF r o, of "[]"] m have "N = 21" by auto
  with m s l show ?thesis by auto
qed

text \<open>
  The count of rows of claim C3 does not hold for every run: when the open of tick 1
  fails and \<open>rand()\<close> returns 0, the loop makes 21 passes and the file has 20 rows.
\<close>

theorem C3_counterexample:
  "run_ticks env_tick1_closed [] = 21 \<and> length (run_rows env_tick1_closed []) = 20"
proof -
  have r: "rand env_tick1_closed = (\<lambda>k. 0)" and f: "fopen_ok env_tick1_closed 0"
    by (simp_all add: env_tick1_closed_def)
  from quiet_run [OF r f, of "[]"]
  obtain w where m: "main env_tick1_closed [] = Inr (0, 21, reading env_tick1_closed 21, w)"
    and d: "data_file w = msg_header # map (\<lambda>k. csv_row (reading env_tick1_closed k))
              (filter (fopen_ok env_tick1_closed) [1..<22])"
    by blast
  have "length (filter (fopen_ok env_tick1_closed) [1..<22]) = 20"
    unfolding upt_1_22 by (simp add: env_tick1_closed_def)
  with d have "length (tl (data_file w)) = 20" by simp
  with m show ?thesis by (simp add: run_ticks_def run_rows_def)
qed



subsection \<open>The first open\<close>

text \<open>
  Claim C9. The open that writes the header is not checked: the program calls \<open>fprintf\<close>
  and \<open>fclose\<close> on a null stream exactly when that open fails, and it returns normally
  exactly when that open succeeds, whatever the opens of the ticks do.
\<close>

theorem C9_unchecked_header_open:
  "(main e prior = Inl Null_FILE) = (\<not> fopen_ok e 0)
   \<and> (\<exists>r. main e prior = Inr r) = fopen_ok e 0"
proof (cases "fopen_ok e 0")
  case True
  from main_run [OF True, of prior] obtain r where r: "main e prior = Inr r" by blast
  from r have a: "main e prior \<noteq> Inl Null_FILE" by simp
  from r have b: "\<exists>r. main e prior = Inr r" by (rule exI)
  from True a b show ?thesis by blast
next
  case False
  then have "main e prior = Inl Null_FILE" by (simp add: main_def Let_def)
  with False show ?thesis by simp
qed

subsection \<open>Termination\<close>

text \<open>
  Claim C10. The loop always ends: started by \<open>main\<close> it makes at most 21 passes and
  stops at a critical reading, because the temperature of tick 21 is above
  \<open>CRITICAL_TEMP\<close> whatever \<open>rand()\<close> returns; \<open>main\<close> then returns exit code 0.
\<close>

theorem C10_termination:
  assumes "fopen_ok e 0"
  shows "(\<exists>N w. main e prior = Inr (0, int N, reading e N, w)
            \<and> 1 \<le> N \<and> N \<le> 21 \<and> status (reading e N) = 2)
         \<and> (\<exists>ts cur w'. main_loop e 0 prev w0 = Inr (ts, cur, w')
              \<and> status cur = 2 \<and> 1 \<le> ts \<and> ts \<le> 21)
         \<and> CRITICAL_TEMP < temperature (read_sensors rand_max 21 r1 r2)
         \<and> status (read_sensors rand_max 21 r1 r2) = 2"
proof -
  from main_run [OF assms, of prior]
  have 1: "\<exists>N w. main e prior = Inr (0, int N, reading e N, w)
            \<and> 1 \<le> N \<and> N \<le> 21 \<and> status (reading e N) = 2"
    by blast
  from main_loop_halts [of e 0 prev w0]
  have 2: "\<exists>ts cur w'. main_loop e 0 prev w0 = Inr (ts, cur, w')
              \<and> status cur = 2 \<and> 1 \<le> ts \<and> ts \<le> 21"
    by fastforce
  have 3: "CRITICAL_TEMP < temperature (read_sensors rand_max 21 r1 r2)"
    by (simp add: read_sensors_def CRITICAL_TEMP_def Let_def add_pos_nonneg)
  have 4: "status (read_sensors rand_max 21 r1 r2) = 2"
    by (rule read_sensors_critical) simp
  from 1 2 3 4 show ?thesis by blast
qed

theorem C10_termination_witness:
  "\<exists>N w. main env_tick1_closed [] = Inr (0, int N, reading env_tick1_closed N, w)
            \<and> 1 \<le> N \<and> N \<le> 21 \<and> status (reading env_tick1_closed N) = 2"
proof -
  have o: "fopen_ok env_tick1_closed 0" by (simp add: env_tick1_closed_def)
  from C10_termination [OF o, of "[]"] show ?thesis by blast
qed

end
